theory Spec2Isabelle
  imports Main
begin

section \<open>slim-node-postgres: named-parameter preparation and the pool facade\<close>

text \<open>
  The development embeds \<^verbatim>\<open>src/SlimNodePostgres.ts\<close>,
  \<^verbatim>\<open>src/PostgresPreparedStatement.ts\<close>,
  \<^verbatim>\<open>src/parsers/ConnectionStringParserStrategy.ts\<close> and the constructor of
  \<^verbatim>\<open>SlimNodePostgresPool\<close>. JavaScript strings are modelled as \<open>string\<close>; the code only
  ever tells apart the characters \<open>@\<close>, \<open>$\<close>, \<open>"\<close>, the letters, the underscore and the
  digits. A thrown exception (or a rejected promise of an \<open>async\<close> method) is the \<open>Inl\<close> of a
  sum; a parameter object is the map of the properties that the \<open>in\<close> operator sees, its
  own and the inherited ones (\<open>object_literal\<close> gives that map for an object literal).
\<close>

subsection \<open>Values, errors, results\<close>

datatype jsval = Undefined | Null | Bool bool | Num int | Str string | Builtin string

datatype error =
    Error string
  | PreparedStatementError string
  | PoolAlreadyExistsError string
  | ConnectionStringParseError string
  | TypeError string

type_synonym 'v PreparedStatementParameters = "string \<rightharpoonup> 'v"

text \<open>
  The code asks \<^verbatim>\<open>name in parameters\<close> and reads \<^verbatim>\<open>parameters[name]\<close>; both follow the
  prototype chain. An object literal \<^verbatim>\<open>{k: v, ...}\<close> therefore shows its own properties
  and, behind them, the properties it inherits from \<^verbatim>\<open>Object.prototype\<close>, whose values are
  built-in functions (\<open>Builtin\<close> with the function's name; the accessor \<^verbatim>\<open>__proto__\<close> reads
  as the prototype object).
\<close>

definition Object_prototype :: "string \<rightharpoonup> jsval" where
  "Object_prototype =
     [''constructor'' \<mapsto> Builtin ''Object'',
      ''hasOwnProperty'' \<mapsto> Builtin ''Object.prototype.hasOwnProperty'',
      ''isPrototypeOf'' \<mapsto> Builtin ''Object.prototype.isPrototypeOf'',
      ''propertyIsEnumerable'' \<mapsto> Builtin ''Object.prototype.propertyIsEnumerable'',
      ''toLocaleString'' \<mapsto> Builtin ''Object.prototype.toLocaleString'',
      ''toString'' \<mapsto> Builtin ''Object.prototype.toString'',
      ''valueOf'' \<mapsto> Builtin ''Object.prototype.valueOf'',
      ''__defineGetter__'' \<mapsto> Builtin ''Object.prototype.__defineGetter__'',
      ''__defineSetter__'' \<mapsto> Builtin ''Object.prototype.__defineSetter__'',
      ''__lookupGetter__'' \<mapsto> Builtin ''Object.prototype.__lookupGetter__'',
      ''__lookupSetter__'' \<mapsto> Builtin ''Object.prototype.__lookupSetter__'',
      ''__proto__'' \<mapsto> Builtin ''Object.prototype'']"

definition object_literal :: "(string \<rightharpoonup> jsval) \<Rightarrow> jsval PreparedStatementParameters" where
  "object_literal own = Object_prototype ++ own"

record ExecuteResult =
  affectedRows :: int
  changedRows :: int

record InsertResult = ExecuteResult +
  insertId :: jsval

subsection \<open>The string primitives of the JavaScript library that the code calls\<close>

text \<open>The character class \<^verbatim>\<open>[A-Za-z_]\<close>.\<close>

definition is_ident :: "char \<Rightarrow> bool" where
  "is_ident c = (c \<in> set ''ABCDEFGHIJKLMNOPQRSTUVWXYZabcdefghijklmnopqrstuvwxyz_'')"

text \<open>
  \<^verbatim>\<open>str.match(/@([A-Za-z_]+)/)\<close>: the leftmost position where an \<open>@\<close> is followed by at
  least one identifier character, with the greedy run of identifier characters after it.
  \<open>regex_search\<close> returns the text before the match, capture group 1 and the text after the
  match; \<open>match_token\<close> returns what the code reads from the match array, \<^verbatim>\<open>match[0]\<close> and
  \<^verbatim>\<open>match[1]\<close>.
\<close>

fun regex_search :: "string \<Rightarrow> (string \<times> string \<times> string) option" where
  "regex_search [] = None"
| "regex_search (c # cs) =
     (if c = CHR ''@'' \<and> takeWhile is_ident cs \<noteq> []
      then Some ([], takeWhile is_ident cs, dropWhile is_ident cs)
      else map_option (\<lambda>(b, n, a). (c # b, n, a)) (regex_search cs))"

definition match_token :: "string \<Rightarrow> (string \<times> string) option" where
  "match_token s = map_option (\<lambda>(b, n, a). (CHR ''@'' # n, n)) (regex_search s)"

text \<open>
  \<^verbatim>\<open>str.replace(pattern, replacement)\<close> with a string pattern: the first occurrence of
  \<open>pattern\<close> is replaced, and the replacement text is expanded first (\<open>$$\<close>, \<open>$&\<close>,
  \<open>$`\<close>, \<open>$'\<close>); a string pattern has no capture groups, so \<open>$1\<close>, \<open>$12\<close> and \<open>$<\<close>
  stand for themselves.
\<close>

fun split_first :: "string \<Rightarrow> string \<Rightarrow> (string \<times> string) option" where
  "split_first pat [] = (if pat = [] then Some ([], []) else None)"
| "split_first pat (c # cs) =
     (if take (length pat) (c # cs) = pat then Some ([], drop (length pat) (c # cs))
      else map_option (\<lambda>(b, a). (c # b, a)) (split_first pat cs))"

fun get_substitution :: "string \<Rightarrow> string \<Rightarrow> string \<Rightarrow> string \<Rightarrow> string" where
  "get_substitution m b a [] = []"
| "get_substitution m b a [c] = [c]"
| "get_substitution m b a (c # d # cs) =
     (if c = CHR ''$'' then
        (if d = CHR ''$'' then CHR ''$'' # get_substitution m b a cs
         else if d = CHR ''&'' then m @ get_substitution m b a cs
         else if d = CHR 0x60 then b @ get_substitution m b a cs
         else if d = CHR 0x27 then a @ get_substitution m b a cs
         else c # get_substitution m b a (d # cs))
      else c # get_substitution m b a (d # cs))"

definition replace_first :: "string \<Rightarrow> string \<Rightarrow> string \<Rightarrow> string" where
  "replace_first s pat rep =
     (case split_first pat s of
        None \<Rightarrow> s
      | Some (b, a) \<Rightarrow> b @ get_substitution pat b a rep @ a)"

text \<open>\<^verbatim>\<open>`${index}`\<close>: the decimal numeral of a non-negative integer.\<close>

fun string_of_nat :: "nat \<Rightarrow> string" where
  "string_of_nat n =
     (if n < 10 then [''0123456789'' ! n]
      else string_of_nat (n div 10) @ [''0123456789'' ! (n mod 10)])"

declare string_of_nat.simps [simp del]

text \<open>\<^verbatim>\<open>array.join(sep)\<close> on an array of strings.\<close>

fun join :: "string \<Rightarrow> string list \<Rightarrow> string" where
  "join sep [] = []"
| "join sep [x] = x"
| "join sep (x # y # ys) = x @ sep @ join sep (y # ys)"

text \<open>\<^verbatim>\<open>str.startsWith(prefix)\<close>.\<close>

definition startsWith :: "string \<Rightarrow> string \<Rightarrow> bool" where
  "startsWith s p = (take (length p) s = p)"

subsection \<open>The preparation loop\<close>

text \<open>
  \<^verbatim>\<open>Missing prepared statement value for SQL variable '${variableName}'\<close>
\<close>

definition missing_message :: "string \<Rightarrow> string" where
  "missing_message variableName =
     ''Missing prepared statement value for SQL variable '' @ [CHR 0x27] @ variableName @ [CHR 0x27]"

text \<open>
  The \<^verbatim>\<open>while ((match = preparedSQL.match(...)))\<close> loop, which both classes contain. The two
  copies differ in the class of the error (\<open>mk\<close>), in the marker put before the index
  (\<open>marker\<close>: the facade writes \<open>$\<close>, the statement class its field \<open>replaceValuesWith\<close>) and
  in the test \<^verbatim>\<open>!parameters\<close>, which only the facade makes (\<open>parameters = None\<close> is the absent
  argument). A marker can bring an \<open>@\<close> token of its own (\<open>$&\<close> stands for the matched
  token), and then the loop need not end: it is a partial function, and \<open>None\<close> is the run
  that never returns.
\<close>

partial_function (option) prepare_loop ::
  "(string \<Rightarrow> error) \<Rightarrow> string \<Rightarrow> 'v PreparedStatementParameters option \<Rightarrow>
     string \<Rightarrow> 'v list \<Rightarrow> nat \<Rightarrow> (error + string \<times> 'v list) option"
where
  "prepare_loop mk marker parameters preparedSQL preparedValues index =
     (case match_token preparedSQL of
        None \<Rightarrow> Some (Inr (preparedSQL, preparedValues))
      | Some (variableName, baseVariableName) \<Rightarrow>
          (case parameters of
             None \<Rightarrow> Some (Inl (mk (missing_message variableName)))
           | Some ps \<Rightarrow>
               (case ps baseVariableName of
                  None \<Rightarrow> Some (Inl (mk (missing_message variableName)))
                | Some v \<Rightarrow>
                    prepare_loop mk marker parameters
                      (replace_first preparedSQL variableName (marker @ string_of_nat index))
                      (preparedValues @ [v]) (index + 1))))"

text \<open>The unfolding equation of the loop is its code equation.\<close>

declare prepare_loop.simps [code]

text \<open>The object both \<open>prepare\<close> methods return; \<open>None\<close> is \<^verbatim>\<open>null\<close>.\<close>

record 'v ParsedPreparedStatement =
  preparedSQL :: string
  preparedValues :: "'v list option"

text \<open>\<^verbatim>\<open>SlimNodePostgres.prepare(sql, parameters?)\<close>: the value array is returned as it is.\<close>

definition SlimNodePostgres_prepare ::
  "string \<Rightarrow> 'v PreparedStatementParameters option \<Rightarrow> (error + 'v ParsedPreparedStatement) option"
where
  "SlimNodePostgres_prepare sql parameters =
     map_option
       (map_sum id (\<lambda>(s, vs). \<lparr>preparedSQL = s, preparedValues = Some vs\<rparr>))
       (prepare_loop Error ''$'' parameters sql [] 1)"

text \<open>
  \<^verbatim>\<open>PostgresPreparedStatement\<close>: the fields the constructor sets (the pool handle is left
  out, \<open>prepare\<close> does not read it), \<open>setReplaceValuesWith\<close>, and \<open>prepare\<close>, which returns
  \<^verbatim>\<open>null\<close> for an empty value array.
\<close>

record 'v PostgresPreparedStatement =
  sqlString :: string
  parameters :: "'v PreparedStatementParameters"
  replaceValuesWith :: string

definition PostgresPreparedStatement_new ::
  "string \<Rightarrow> 'v PreparedStatementParameters \<Rightarrow> 'v PostgresPreparedStatement"
where
  "PostgresPreparedStatement_new sql ps =
     \<lparr>sqlString = sql, parameters = ps, replaceValuesWith = ''$''\<rparr>"

definition setReplaceValuesWith ::
  "string \<Rightarrow> 'v PostgresPreparedStatement \<Rightarrow> 'v PostgresPreparedStatement"
where
  "setReplaceValuesWith r this = this\<lparr>replaceValuesWith := r\<rparr>"

definition PostgresPreparedStatement_prepare ::
  "'v PostgresPreparedStatement \<Rightarrow> (error + 'v ParsedPreparedStatement) option"
where
  "PostgresPreparedStatement_prepare this =
     map_option
       (map_sum id
          (\<lambda>(s, vs). \<lparr>preparedSQL = s,
                       preparedValues = (if length vs > 0 then Some vs else None)\<rparr>))
       (prepare_loop PreparedStatementError (replaceValuesWith this)
          (Some (parameters this)) (sqlString this) [] 1)"

subsection \<open>The driver's pool\<close>

text \<open>
  The pool of the \<^verbatim>\<open>pg\<close> driver is an external collaborator. The model keeps what the
  facade can observe: the options the pool was built from, whether \<^verbatim>\<open>end()\<close> was called,
  and the list of the queries issued to it. What the database answers is a parameter
  (\<open>drv\<close>) of every operation that queries.
\<close>

type_synonym PoolConfig = "string \<rightharpoonup> jsval"

record QueryResult =
  rowCount :: int
  rows :: "(string \<rightharpoonup> jsval) list"

record Pool =
  options :: PoolConfig
  ending :: bool
  issued :: "(string \<times> jsval list option) list"

type_synonym driver = "Pool \<Rightarrow> string \<Rightarrow> jsval list option \<Rightarrow> error + QueryResult"

definition Pool_new :: "PoolConfig \<Rightarrow> Pool" where
  "Pool_new cfg = \<lparr>options = cfg, ending = False, issued = []\<rparr>"

definition Pool_query ::
  "driver \<Rightarrow> Pool \<Rightarrow> string \<Rightarrow> jsval list option \<Rightarrow> (error + QueryResult) \<times> Pool"
where
  "Pool_query drv p sql vs = (drv p sql vs, p\<lparr>issued := issued p @ [(sql, vs)]\<rparr>)"

definition Pool_end :: "Pool \<Rightarrow> (error + unit) \<times> Pool" where
  "Pool_end p =
     (if ending p then (Inl (Error ''Called end on pool more than once''), p)
      else (Inr (), p\<lparr>ending := True\<rparr>))"

subsection \<open>The facade \<^verbatim>\<open>SlimNodePostgres\<close>\<close>

text \<open>The constructor argument \<^verbatim>\<open>config: string | PoolConfig\<close>.\<close>

datatype config_arg = ConfigString string | ConfigObject PoolConfig

record SlimNodePostgres =
  pool :: "Pool option"
  config :: config_arg
  otherPoolOptions :: "PoolConfig option"

text \<open>
  The object literal both the constructor and \<open>connect\<close> build:
  \<^verbatim>\<open>{...otherPoolOptions, connectionString: typeof config === 'string' ? config : undefined,
     ...(typeof config !== 'string' ? config : {})}\<close>.
  Spreading \<^verbatim>\<open>undefined\<close> adds nothing; a later key overrides an earlier one.
\<close>

definition spread :: "PoolConfig option \<Rightarrow> PoolConfig" where
  "spread other = (case other of None \<Rightarrow> Map.empty | Some m \<Rightarrow> m)"

definition pool_options :: "config_arg \<Rightarrow> PoolConfig option \<Rightarrow> PoolConfig" where
  "pool_options cfg other =
     ((spread other)
        (''connectionString'' \<mapsto> (case cfg of ConfigString s \<Rightarrow> Str s | ConfigObject c \<Rightarrow> Undefined)))
     ++ (case cfg of ConfigString s \<Rightarrow> Map.empty | ConfigObject c \<Rightarrow> c)"

definition SlimNodePostgres_new :: "config_arg \<Rightarrow> PoolConfig option \<Rightarrow> SlimNodePostgres" where
  "SlimNodePostgres_new cfg other =
     \<lparr>pool = Some (Pool_new (pool_options cfg other)), config = cfg, otherPoolOptions = other\<rparr>"

definition hasOpenPool :: "SlimNodePostgres \<Rightarrow> bool" where
  "hasOpenPool this = (pool this \<noteq> None)"

definition connect :: "SlimNodePostgres \<Rightarrow> (error + unit) \<times> SlimNodePostgres" where
  "connect this =
     (if pool this \<noteq> None
      then (Inl (PoolAlreadyExistsError
        ''The pool has already been initialized. Please close the current pool first or create another instance of SlimNodePostgres.''),
        this)
      else (Inr (),
        this\<lparr>pool := Some (Pool_new (pool_options (config this) (otherPoolOptions this)))\<rparr>))"

definition close :: "SlimNodePostgres \<Rightarrow> (error + unit) \<times> SlimNodePostgres" where
  "close this =
     (case pool this of
        Some p \<Rightarrow>
          (case Pool_end p of
             (Inl e, p') \<Rightarrow> (Inl e, this\<lparr>pool := Some p'\<rparr>)
           | (Inr u, p') \<Rightarrow> (Inr (), this\<lparr>pool := None\<rparr>))
      | None \<Rightarrow> (Inr (), this\<lparr>pool := None\<rparr>))"

text \<open>
  \<^verbatim>\<open>this.pool.query(sql, values)\<close>: on a closed facade \<^verbatim>\<open>this.pool\<close> is \<^verbatim>\<open>null\<close> and the
  property access throws a \<^verbatim>\<open>TypeError\<close>.
\<close>

definition this_pool_query ::
  "driver \<Rightarrow> SlimNodePostgres \<Rightarrow> string \<Rightarrow> jsval list option \<Rightarrow>
     (error + QueryResult) \<times> SlimNodePostgres"
where
  "this_pool_query drv this sql vs =
     (case pool this of
        None \<Rightarrow> (Inl (TypeError (''Cannot read properties of null (reading '' @ [CHR 0x27] @ ''query'' @ [CHR 0x27] @ '')'')), this)
      | Some p \<Rightarrow> (case Pool_query drv p sql vs of (r, p') \<Rightarrow> (r, this\<lparr>pool := Some p'\<rparr>)))"

text \<open>
  \<^verbatim>\<open>identifier.replace(/"/g, '""')\<close>: the global pattern replaces every double quote, from
  left to right, by two; \<open>escapeIdentifier\<close> puts the result between two double quotes.
\<close>

fun replace_quotes :: "string \<Rightarrow> string" where
  "replace_quotes [] = []"
| "replace_quotes (c # cs) =
     (if c = CHR 0x22 then CHR 0x22 # CHR 0x22 # replace_quotes cs else c # replace_quotes cs)"

definition escapeIdentifier :: "string \<Rightarrow> string" where
  "escapeIdentifier identifier = [CHR 0x22] @ replace_quotes identifier @ [CHR 0x22]"

definition SlimNodePostgres_insert ::
  "driver \<Rightarrow> string \<Rightarrow> string list \<Rightarrow> jsval list \<Rightarrow> SlimNodePostgres \<Rightarrow>
     (error + InsertResult) \<times> SlimNodePostgres"
where
  "SlimNodePostgres_insert drv tableName columns vals this =
     (if length columns \<noteq> length vals
      then (Inl (Error ''Columns length must match values length.''), this)
      else
        let placeholders = map (\<lambda>index. ''$'' @ string_of_nat (index + 1)) [0..<length vals];
            sql = ''INSERT INTO '' @ escapeIdentifier tableName @ '' (''
                  @ join '', '' (map (\<lambda>col. escapeIdentifier col) columns)
                  @ '') VALUES ('' @ join '', '' placeholders @ '') RETURNING id''
        in case this_pool_query drv this sql (Some vals) of
             (Inl e, this') \<Rightarrow> (Inl e, this')
           | (Inr result, this') \<Rightarrow>
               (Inr \<lparr>affectedRows = rowCount result,
                     changedRows = rowCount result,
                     insertId =
                       (if length (rows result) > 0
                        then (case (rows result ! 0) ''id'' of Some v \<Rightarrow> v | None \<Rightarrow> Undefined)
                        else Null)\<rparr>,
                this'))"

text \<open>
  \<open>execute\<close> and \<open>query\<close> prepare first and query the pool afterwards. They inherit the
  \<open>option\<close> of the loop: \<open>None\<close> would be a call that never returns.
\<close>

definition SlimNodePostgres_execute ::
  "driver \<Rightarrow> string \<Rightarrow> jsval PreparedStatementParameters option \<Rightarrow> SlimNodePostgres \<Rightarrow>
     ((error + ExecuteResult) \<times> SlimNodePostgres) option"
where
  "SlimNodePostgres_execute drv sql ps this =
     (case SlimNodePostgres_prepare sql ps of
        None \<Rightarrow> None
      | Some (Inl e) \<Rightarrow> Some (Inl e, this)
      | Some (Inr preparedStatement) \<Rightarrow>
          Some (case this_pool_query drv this (preparedSQL preparedStatement)
                       (preparedValues preparedStatement) of
                  (Inl e, this') \<Rightarrow> (Inl e, this')
                | (Inr result, this') \<Rightarrow>
                    (Inr \<lparr>affectedRows = rowCount result, changedRows = rowCount result\<rparr>,
                     this')))"

definition SlimNodePostgres_query ::
  "driver \<Rightarrow> string \<Rightarrow> jsval PreparedStatementParameters option \<Rightarrow> SlimNodePostgres \<Rightarrow>
     ((error + (string \<rightharpoonup> jsval) list) \<times> SlimNodePostgres) option"
where
  "SlimNodePostgres_query drv sql ps this =
     (case SlimNodePostgres_prepare sql ps of
        None \<Rightarrow> None
      | Some (Inl e) \<Rightarrow> Some (Inl e, this)
      | Some (Inr preparedStatement) \<Rightarrow>
          Some (case this_pool_query drv this (preparedSQL preparedStatement)
                       (preparedValues preparedStatement) of
                  (Inl e, this') \<Rightarrow> (Inl e, this')
                | (Inr result, this') \<Rightarrow> (Inr (rows result), this')))"

subsection \<open>Connection strings and \<^verbatim>\<open>SlimNodePostgresPool\<close>\<close>

text \<open>
  Modelled from the spec: the interface \<^verbatim>\<open>ConnectionConfig\<close>
  (\<^verbatim>\<open>models/ConnectionConfig.ts\<close> is not among the sources). Its fields are the four
  structured connection fields that the specification lists and that the constructor of
  \<^verbatim>\<open>SlimNodePostgresPool\<close> reads.
\<close>

record ConnectionConfig =
  host :: jsval
  user :: jsval
  password :: jsval
  database :: jsval

text \<open>
  \<^verbatim>\<open>ConnectionStringParserStrategy.getParserStrategy\<close>. The only parser class is imported
  from \<^verbatim>\<open>./MySQLConnectionStringParser\<close>, which is not among the sources: its method
  \<^verbatim>\<open>parseConnectionString\<close> is a parameter (\<open>parse\<close>) of the constructor below.
\<close>

datatype ConnectionStringParser = PostgresConnectionStringParser

definition getParserStrategy :: "string \<Rightarrow> error + ConnectionStringParser" where
  "getParserStrategy connectionString =
     (if startsWith connectionString ''mysql://''
      then Inr PostgresConnectionStringParser
      else Inl (ConnectionStringParseError ''No parser for connection string type''))"

record SlimNodePostgresPool =
  pool_of :: Pool

definition SlimNodePostgresPool_new ::
  "(ConnectionStringParser \<Rightarrow> string \<Rightarrow> error + ConnectionConfig) \<Rightarrow>
     config_arg \<Rightarrow> PoolConfig option \<Rightarrow> error + SlimNodePostgresPool"
where
  "SlimNodePostgresPool_new parse cfg other =
     (case cfg of
        ConfigString s \<Rightarrow>
          (case getParserStrategy s of
             Inl e \<Rightarrow> Inl e
           | Inr parser \<Rightarrow>
               (case parse parser s of
                  Inl e \<Rightarrow> Inl e
                | Inr connection \<Rightarrow>
                    Inr \<lparr>pool_of = Pool_new
                      ((spread other)
                         (''host'' \<mapsto> host connection, ''user'' \<mapsto> user connection,
                          ''password'' \<mapsto> password connection,
                          ''database'' \<mapsto> database connection))\<rparr>))
      | ConfigObject c \<Rightarrow> Inr \<lparr>pool_of = Pool_new c\<rparr>)"

section \<open>The specification's reading of a template\<close>

text \<open>
  The definitions of this section follow the words of the specification, not the code: a
  template is read once, from left to right, as a sequence of literal characters and of
  tokens (an \<open>@\<close> with the longest run of letters and underscores after it); \<open>unparse\<close>
  writes the template back, \<open>render\<close> writes the positional placeholder \<open>$k\<close> in place of
  the token occurrences, counting from \<open>k\<close>; \<open>rewrite\<close> is the whole one-pass preparation,
  which fails at the first token occurrence without a parameter.
\<close>

datatype piece = Lit char | Tok string

function pieces :: "string \<Rightarrow> piece list" where
  "pieces [] = []"
| "pieces (c # cs) =
     (if c = CHR ''@'' \<and> takeWhile is_ident cs \<noteq> []
      then Tok (takeWhile is_ident cs) # pieces (dropWhile is_ident cs)
      else Lit c # pieces cs)"
  by pat_completeness auto
termination
  by (relation "measure length") (auto simp: length_dropWhile_le less_Suc_eq_le)

fun token_names :: "piece list \<Rightarrow> string list" where
  "token_names [] = []"
| "token_names (Lit c # ps) = token_names ps"
| "token_names (Tok n # ps) = n # token_names ps"

fun unparse :: "piece list \<Rightarrow> string" where
  "unparse [] = []"
| "unparse (Lit c # ps) = c # unparse ps"
| "unparse (Tok n # ps) = CHR ''@'' # n @ unparse ps"

definition placeholder :: "nat \<Rightarrow> string" where
  "placeholder k = CHR ''$'' # string_of_nat k"

fun render :: "nat \<Rightarrow> piece list \<Rightarrow> string" where
  "render k [] = []"
| "render k (Lit c # ps) = c # render k ps"
| "render k (Tok n # ps) = placeholder k @ render (Suc k) ps"

definition lookup :: "'v PreparedStatementParameters option \<Rightarrow> string \<Rightarrow> 'v option" where
  "lookup P n = (case P of None \<Rightarrow> None | Some ps \<Rightarrow> ps n)"

fun first_missing :: "'v PreparedStatementParameters option \<Rightarrow> string list \<Rightarrow> string option" where
  "first_missing P [] = None"
| "first_missing P (n # ns) = (if lookup P n = None then Some n else first_missing P ns)"

definition values_of :: "'v PreparedStatementParameters option \<Rightarrow> string list \<Rightarrow> 'v list" where
  "values_of P ns = List.map_filter (lookup P) ns"

definition rewrite ::
  "(string \<Rightarrow> error) \<Rightarrow> 'v PreparedStatementParameters option \<Rightarrow> nat \<Rightarrow> piece list \<Rightarrow>
     error + string \<times> 'v list" where
  "rewrite mk P k ps =
     (case first_missing P (token_names ps) of
        Some n \<Rightarrow> Inl (mk (missing_message (CHR ''@'' # n)))
      | None \<Rightarrow> Inr (render k ps, values_of P (token_names ps)))"

text \<open>
  The positional placeholders that the target dialect reads in a statement: a \<open>$\<close> with the
  longest run of decimal digits after it denotes the position that the digits spell.
\<close>

definition is_digit :: "char \<Rightarrow> bool" where
  "is_digit c = (c \<in> set ''0123456789'')"

definition nat_of_digits :: "string \<Rightarrow> nat" where
  "nat_of_digits ds = foldl (\<lambda>acc c. 10 * acc + (of_char c - 48)) 0 ds"

function placeholders :: "string \<Rightarrow> nat list" where
  "placeholders [] = []"
| "placeholders (c # cs) =
     (if c = CHR ''$'' \<and> takeWhile is_digit cs \<noteq> []
      then nat_of_digits (takeWhile is_digit cs) # placeholders (dropWhile is_digit cs)
      else placeholders cs)"
  by pat_completeness auto
termination
  by (relation "measure length") (auto simp: length_dropWhile_le less_Suc_eq_le)

text \<open>
  The facade never keeps a pool on which \<^verbatim>\<open>end()\<close> was called: the pool of a new facade
  and of \<open>connect\<close> is fresh, and \<open>close\<close> drops the pool it ends.
\<close>

definition wf_facade :: "SlimNodePostgres \<Rightarrow> bool" where
  "wf_facade this = (case pool this of None \<Rightarrow> True | Some p \<Rightarrow> \<not> ending p)"

text \<open>
  A template whose rewriting the target dialect reads as it was written: no \<open>$\<close> of the
  template's own, and no token occurrence with a decimal digit right after it.
\<close>

fun plain :: "piece list \<Rightarrow> bool" where
  "plain [] = True"
| "plain (Lit c # ps) = (c \<noteq> CHR ''$'' \<and> plain ps)"
| "plain (Tok n # Lit c # ps) = (\<not> is_digit c \<and> plain (Lit c # ps))"
| "plain (Tok n # ps) = plain ps"

text \<open>
  What the specification says \<open>insert\<close> sends: the identifier between double quotes with
  every double quote inside doubled, and the statement built from the quoted names and the
  placeholders \<open>$1\<close> to \<open>$n\<close>.
\<close>

definition quoted :: "string \<Rightarrow> string" where
  "quoted name = [CHR 0x22] @ concat (map (\<lambda>c. if c = CHR 0x22 then [CHR 0x22, CHR 0x22] else [c]) name) @ [CHR 0x22]"

definition insert_statement :: "string \<Rightarrow> string list \<Rightarrow> string" where
  "insert_statement table columns =
     ''INSERT INTO '' @ quoted table @ '' ('' @ join '', '' (map quoted columns)
       @ '') VALUES ('' @ join '', '' (map placeholder [1..<Suc (length columns)])
       @ '') RETURNING id''"

text \<open>A driver answer for the concrete runs below: one row with the generated \<open>id\<close> 1.\<close>

definition drv_one_row :: driver where
  "drv_one_row p sql vs = Inr \<lparr>rowCount = 1, rows = [[''id'' \<mapsto> Num 1]]\<rparr>"

text \<open>A parser for the concrete runs below: it answers with fixed connection fields.\<close>

definition parse_sample :: "ConnectionStringParser \<Rightarrow> string \<Rightarrow> error + ConnectionConfig" where
  "parse_sample parser s =
     Inr \<lparr>host = Str ''localhost'', user = Str ''u'', password = Str ''p'', database = Str ''db''\<rparr>"

section \<open>The loop against the one-pass reading\<close>

lemma token_names_append: "token_names (ps @ qs) = token_names ps @ token_names qs"
  by (induction ps rule: token_names.induct) auto

lemma token_names_Lit: "token_names (map Lit s) = []"
  by (induction s) auto

lemma render_Lit: "render k (map Lit s @ ps) = s @ render k ps"
  by (induction s) auto

lemma unparse_Lit: "unparse (map Lit s @ ps) = s @ unparse ps"
  by (induction s) auto

lemma search_None_pieces: "regex_search s = None \<Longrightarrow> pieces s = map Lit s"
  by (induction s) (auto split: if_splits)

lemma search_Some_pieces:
  "regex_search s = Some (b, n, a) \<Longrightarrow> pieces s = map Lit b @ Tok n # pieces a"
  by (induction s arbitrary: b) (auto split: if_splits)

lemma search_Some_eq:
  "regex_search s = Some (b, n, a) \<Longrightarrow> s = b @ CHR ''@'' # n @ a"
  by (induction s arbitrary: b) (auto split: if_splits)

lemma search_Some_name:
  "regex_search s = Some (b, n, a) \<Longrightarrow> n \<noteq> [] \<and> (\<forall>c\<in>set n. is_ident c)"
  by (induction s arbitrary: b) (auto split: if_splits dest: set_takeWhileD)

lemma search_Some_after:
  "regex_search s = Some (b, n, a) \<Longrightarrow> a = [] \<or> \<not> is_ident (hd a)"
  by (induction s arbitrary: b) (auto split: if_splits simp: hd_dropWhile)

lemma take_ident_takeWhile:
  assumes "take (length n) cs = n" "n \<noteq> []" "is_ident (hd n)"
  shows "takeWhile is_ident cs \<noteq> []"
proof -
  from assms(1,2) have "cs \<noteq> []" by auto
  moreover from assms(1,2) have "hd cs = hd n"
    by (metis hd_take length_greater_0_conv)
  ultimately show ?thesis using assms(3) by (cases cs) auto
qed

lemma search_Some_split:
  "regex_search s = Some (b, n, a) \<Longrightarrow> split_first (CHR ''@'' # n) s = Some (b, a)"
proof (induction s arbitrary: b)
  case Nil
  then show ?case by simp
next
  case (Cons c cs)
  show ?case
  proof (cases "c = CHR ''@'' \<and> takeWhile is_ident cs \<noteq> []")
    case True
    with Cons.prems have b: "b = []" and n: "n = takeWhile is_ident cs" and a: "a = dropWhile is_ident cs"
      by auto
    have "take (length n) cs = n"
      unfolding n by (metis append_eq_conv_conj takeWhile_dropWhile_id)
    moreover have "drop (length n) cs = a"
      unfolding n a by (metis append_eq_conv_conj takeWhile_dropWhile_id)
    ultimately show ?thesis using True b by simp
  next
    case False
    with Cons.prems obtain b' where b: "b = c # b'" and r: "regex_search cs = Some (b', n, a)"
      by auto
    from search_Some_name[OF r] have ne: "n \<noteq> []" and idn: "is_ident (hd n)"
      by auto
    have "take (length (CHR ''@'' # n)) (c # cs) \<noteq> CHR ''@'' # n"
      using False take_ident_takeWhile[OF _ ne idn, of cs] by auto
    then show ?thesis using Cons.IH[OF r] b by simp
  qed
qed

lemma search_Some_shift:
  assumes "regex_search s = Some (b, n, a)" and "y = [] \<or> \<not> is_ident (hd y)"
  shows "regex_search (b @ y) = map_option (\<lambda>(b', n', a'). (b @ b', n', a')) (regex_search y)"
  using assms(1)
proof (induction s arbitrary: b)
  case Nil
  then show ?case by simp
next
  case (Cons c cs)
  show ?case
  proof (cases "c = CHR ''@'' \<and> takeWhile is_ident cs \<noteq> []")
    case True
    with Cons.prems have "b = []" by auto
    then show ?thesis by (simp add: option.map_ident case_prod_unfold)
  next
    case False
    with Cons.prems obtain b' where b: "b = c # b'" and r: "regex_search cs = Some (b', n, a)"
      by auto
    have cs: "cs = b' @ CHR ''@'' # n @ a" by (rule search_Some_eq[OF r])
    have "\<not> (c = CHR ''@'' \<and> takeWhile is_ident (b' @ y) \<noteq> [])"
    proof (cases b')
      case Nil
      then show ?thesis using assms(2) by (cases y) auto
    next
      case (Cons x xs)
      then show ?thesis using False cs by auto
    qed
    then have "regex_search (c # b' @ y) =
        map_option (\<lambda>(b, n, a). (c # b, n, a)) (regex_search (b' @ y))"
      by auto
    then show ?thesis unfolding b using Cons.IH[OF r]
      by (simp add: option.map_comp comp_def case_prod_unfold)
  qed
qed

lemma search_no_at:
  "CHR ''@'' \<notin> set d \<Longrightarrow>
     regex_search (d @ x) = map_option (\<lambda>(b', n', a'). (d @ b', n', a')) (regex_search x)"
  by (induction d) (auto simp: option.map_comp comp_def case_prod_unfold option.map_ident)


lemma digit_chars: "n < 10 \<Longrightarrow> ''0123456789'' ! n \<in> set ''0123456789''"
  by (rule nth_mem) simp

lemma string_of_nat_digits: "set (string_of_nat k) \<subseteq> set ''0123456789''"
proof (induction k rule: string_of_nat.induct)
  case (1 n)
  show ?case
  proof (cases "n < 10")
    case True
    then show ?thesis using digit_chars[of n] by (subst string_of_nat.simps) simp
  next
    case False
    have "n mod 10 < 10" by simp
    then show ?thesis using 1[OF False] False digit_chars[of "n mod 10"]
      by (subst string_of_nat.simps) simp
  qed
qed

lemma string_of_nat_ne: "string_of_nat k \<noteq> []"
  by (subst string_of_nat.simps) simp

lemma get_substitution_plain:
  "CHR ''$'' \<notin> set r \<Longrightarrow> get_substitution m b a r = r"
  by (induction m b a r rule: get_substitution.induct) auto

lemma get_substitution_placeholder:
  "get_substitution m b a (''$'' @ string_of_nat k) = ''$'' @ string_of_nat k"
proof -
  obtain d ds where ds: "string_of_nat k = d # ds"
    using string_of_nat_ne[of k] by (cases "string_of_nat k") auto
  have sub: "set (d # ds) \<subseteq> set ''0123456789''"
    using string_of_nat_digits[of k] ds by simp
  then have d: "d \<noteq> CHR ''$''" "d \<noteq> CHR ''&''" "d \<noteq> CHR 0x60" "d \<noteq> CHR 0x27"
    by auto
  from sub have "CHR ''$'' \<notin> set (d # ds)" by auto
  then have "get_substitution m b a (d # ds) = d # ds"
    by (rule get_substitution_plain)
  then show ?thesis using d by (simp add: ds)
qed

lemma placeholder_no_at: "CHR ''@'' \<notin> set (placeholder k)"
  using string_of_nat_digits[of k] by (auto simp: placeholder_def)

lemma match_token_None: "regex_search s = None \<Longrightarrow> match_token s = None"
  by (simp add: match_token_def)

lemma match_token_Some:
  "regex_search s = Some (b, n, a) \<Longrightarrow> match_token s = Some (CHR ''@'' # n, n)"
  by (simp add: match_token_def)

lemma replace_first_token:
  "regex_search s = Some (b, n, a) \<Longrightarrow>
     replace_first s (CHR ''@'' # n) (''$'' @ string_of_nat k) = b @ placeholder k @ a"
  using get_substitution_placeholder[of "CHR ''@'' # n" b a k]
  by (simp add: replace_first_def search_Some_split placeholder_def)

lemma prepare_loop_rewrite:
  assumes "\<And>x. regex_search (d @ x) =
             map_option (\<lambda>(b', n', a'). (d @ b', n', a')) (regex_search x)"
  shows "prepare_loop mk ''$'' P (d @ s) vals k =
           Some (map_sum id (\<lambda>(q, vs). (d @ q, vals @ vs)) (rewrite mk P k (pieces s)))"
  using assms
proof (induction "length s" arbitrary: s d vals k rule: less_induct)
  case less
  note inert = less.prems
  show ?case
  proof (cases "regex_search s")
    case None
    then have "match_token (d @ s) = None"
      by (simp add: match_token_def inert)
    then show ?thesis
      by (subst prepare_loop.simps)
         (simp add: search_None_pieces[OF None] rewrite_def token_names_Lit values_of_def
            render_Lit[of k s "[]", simplified])
  next
    case (Some t)
    then obtain b n a where r: "regex_search s = Some (b, n, a)"
      by (cases t) auto
    have s: "s = b @ CHR ''@'' # n @ a" by (rule search_Some_eq[OF r])
    have rd: "regex_search (d @ s) = Some (d @ b, n, a)"
      by (simp add: inert r)
    have m: "match_token (d @ s) = Some (CHR ''@'' # n, n)"
      by (rule match_token_Some[OF rd])
    have ps: "pieces s = map Lit b @ Tok n # pieces a"
      by (rule search_Some_pieces[OF r])
    have tn: "token_names (pieces s) = n # token_names (pieces a)"
      by (simp add: ps token_names_append token_names_Lit)
    have rn: "render k (pieces s) = b @ placeholder k @ render (Suc k) (pieces a)"
      by (simp add: ps render_Lit)
    show ?thesis
    proof (cases "lookup P n")
      case None
      then show ?thesis
        by (subst prepare_loop.simps)
           (auto simp: m rewrite_def tn lookup_def split: option.splits)
    next
      case (Some v)
      then obtain pm where P: "P = Some pm" and pv: "pm n = Some v"
        by (auto simp: lookup_def split: option.splits)
      let ?d = "d @ b @ placeholder k"
      have rep: "replace_first (d @ s) (CHR ''@'' # n) (''$'' @ string_of_nat k) = ?d @ a"
        using replace_first_token[OF rd, of k] by simp
      have inert': "regex_search (?d @ x) =
             map_option (\<lambda>(b', n', a'). (?d @ b', n', a')) (regex_search x)" for x
      proof -
        have y: "placeholder k @ x = [] \<or> \<not> is_ident (hd (placeholder k @ x))"
          by (simp add: placeholder_def is_ident_def)
        have "regex_search (?d @ x) = regex_search (d @ (b @ placeholder k @ x))" by simp
        also have "\<dots> = map_option (\<lambda>(b', n', a'). (d @ b', n', a'))
                          (regex_search (b @ (placeholder k @ x)))"
          by (rule inert)
        also have "regex_search (b @ (placeholder k @ x)) =
                     map_option (\<lambda>(b', n', a'). (b @ b', n', a')) (regex_search (placeholder k @ x))"
          by (rule search_Some_shift[OF r y])
        also have "regex_search (placeholder k @ x) =
                     map_option (\<lambda>(b', n', a'). (placeholder k @ b', n', a')) (regex_search x)"
          by (rule search_no_at[OF placeholder_no_at])
        finally show ?thesis
          by (simp add: option.map_comp comp_def case_prod_unfold)
      qed
      have len: "length a < length s" by (subst s) simp
      have IH: "prepare_loop mk ''$'' P (?d @ a) (vals @ [v]) (Suc k) =
          Some (map_sum id (\<lambda>(q, vs). (?d @ q, (vals @ [v]) @ vs)) (rewrite mk P (Suc k) (pieces a)))"
        by (rule less.hyps[OF len inert'])
      have "prepare_loop mk ''$'' P (d @ s) vals k =
              prepare_loop mk ''$'' P (?d @ a) (vals @ [v]) (Suc k)"
        using rep by (subst prepare_loop.simps) (simp add: m P pv)
      also note IH
      finally show ?thesis
        using Some
        by (auto simp: rewrite_def tn rn values_of_def split: option.splits)
    qed
  qed
qed

lemma val_digit: "d < 10 \<Longrightarrow> of_char (''0123456789'' ! d) - 48 = (d::nat)"
proof -
  assume "d < 10"
  then have "d = 0 \<or> d = 1 \<or> d = 2 \<or> d = 3 \<or> d = 4 \<or> d = 5 \<or> d = 6 \<or> d = 7
    \<or> d = 8 \<or> d = 9" by presburger
  then show ?thesis by auto
qed

lemma nat_of_digits_snoc:
  "nat_of_digits (ds @ [c]) = 10 * nat_of_digits ds + (of_char c - 48)"
  by (simp add: nat_of_digits_def)

lemma nat_of_digits_string_of_nat: "nat_of_digits (string_of_nat n) = n"
proof (induction n rule: string_of_nat.induct)
  case (1 n)
  show ?case
  proof (cases "n < 10")
    case True
    then show ?thesis
      using val_digit[of n] by (subst string_of_nat.simps) (simp add: nat_of_digits_def)
  next
    case False
    have "n mod 10 < 10" by simp
    then show ?thesis
      using 1[OF False] False val_digit[of "n mod 10"]
      by (subst string_of_nat.simps) (simp add: nat_of_digits_snoc)
  qed
qed

lemma placeholder_inj: "placeholder i = placeholder j \<Longrightarrow> i = j"
  by (metis placeholder_def list.inject nat_of_digits_string_of_nat)

lemma SlimNodePostgres_prepare_rewrite:
  "SlimNodePostgres_prepare t P =
     Some (map_sum id (\<lambda>(s, vs). \<lparr>preparedSQL = s, preparedValues = Some vs\<rparr>)
             (rewrite Error P 1 (pieces t)))"
proof -
  have "prepare_loop Error ''$'' P ([] @ t) [] 1 =
          Some (map_sum id (\<lambda>(q, vs). ([] @ q, [] @ vs)) (rewrite Error P 1 (pieces t)))"
    by (rule prepare_loop_rewrite) (simp add: option.map_id)
  then show ?thesis
    by (cases "rewrite Error P 1 (pieces t)") (auto simp: SlimNodePostgres_prepare_def)
qed

lemma PostgresPreparedStatement_prepare_rewrite:
  assumes "replaceValuesWith this = ''$''"
  shows "PostgresPreparedStatement_prepare this =
     Some (map_sum id
             (\<lambda>(s, vs). \<lparr>preparedSQL = s,
                          preparedValues = (if length vs > 0 then Some vs else None)\<rparr>)
             (rewrite PreparedStatementError (Some (parameters this)) 1 (pieces (sqlString this))))"
proof -
  have "prepare_loop PreparedStatementError ''$'' (Some (parameters this)) ([] @ sqlString this) [] 1 =
          Some (map_sum id (\<lambda>(q, vs). ([] @ q, [] @ vs))
            (rewrite PreparedStatementError (Some (parameters this)) 1 (pieces (sqlString this))))"
    by (rule prepare_loop_rewrite) (simp add: option.map_id)
  then show ?thesis
    by (cases "rewrite PreparedStatementError (Some (parameters this)) 1 (pieces (sqlString this))")
       (auto simp: PostgresPreparedStatement_prepare_def assms)
qed

lemma first_missing_None:
  "(\<And>n. n \<in> set ns \<Longrightarrow> lookup P n = Some (f n)) \<Longrightarrow> first_missing P ns = None"
  by (induction ns) auto

lemma values_of_map:
  "(\<And>n. n \<in> set ns \<Longrightarrow> lookup P n = Some (f n)) \<Longrightarrow> values_of P ns = map f ns"
  by (induction ns) (auto simp: values_of_def)

lemma first_missing_Some_ex:
  "m \<in> set ns \<Longrightarrow> lookup P m = None \<Longrightarrow> \<exists>n. first_missing P ns = Some n"
  by (induction ns) auto

lemma first_missing_SomeD:
  "first_missing P ns = Some n \<Longrightarrow> n \<in> set ns \<and> lookup P n = None"
  by (induction ns) (auto split: if_splits)

lemma rewrite_ok:
  assumes "\<And>n. n \<in> set (token_names ps) \<Longrightarrow> lookup P n = Some (f n)"
  shows "rewrite mk P k ps = Inr (render k ps, map f (token_names ps))"
  using first_missing_None[of "token_names ps" P f] values_of_map[of "token_names ps" P f] assms
  by (simp add: rewrite_def)

lemma unparse_pieces: "unparse (pieces t) = t"
  by (induction t rule: pieces.induct) auto

lemma render_no_tokens: "token_names ps = [] \<Longrightarrow> render k ps = unparse ps"
  by (induction ps rule: token_names.induct) auto

lemma render_append:
  "render k (ps @ qs) = render k ps @ render (k + length (token_names ps)) qs"
  by (induction ps arbitrary: k rule: token_names.induct) auto

lemma lookup_Some [simp]: "lookup (Some ps) n = ps n"
  by (simp add: lookup_def)

lemma lookup_None [simp]: "lookup None n = None"
  by (simp add: lookup_def)

lemma rewrite_missing:
  "first_missing P (token_names ps) = Some n \<Longrightarrow>
     rewrite mk P k ps = Inl (mk (missing_message (CHR ''@'' # n)))"
  by (simp add: rewrite_def)

lemma no_tokens_search: "token_names (pieces t) = [] \<Longrightarrow> regex_search t = None"
proof (cases "regex_search t")
  case None
  then show ?thesis by simp
next
  case (Some x)
  assume e: "token_names (pieces t) = []"
  obtain b n a where "x = (b, n, a)" by (cases x) auto
  with Some have "pieces t = map Lit b @ Tok n # pieces a"
    by (simp add: search_Some_pieces)
  with e show ?thesis by (simp add: token_names_append)
qed

lemma escapeIdentifier_quoted: "escapeIdentifier name = quoted name"
proof -
  have "replace_quotes s = concat (map (\<lambda>c. if c = CHR 0x22 then [CHR 0x22, CHR 0x22] else [c]) s)"
    for s
    by (induction s) auto
  then show ?thesis by (simp add: escapeIdentifier_def quoted_def)
qed

lemma insert_placeholders:
  "map (\<lambda>index. ''$'' @ string_of_nat (index + 1)) [0..<n] = map placeholder [1..<Suc n]"
proof -
  have "[1..<Suc n] = map Suc [0..<n]"
    by (simp add: map_Suc_upt)
  then show ?thesis by (simp add: placeholder_def comp_def)
qed

subsection \<open>How the target dialect reads the rewritten statement\<close>

lemma string_of_nat_is_digit: "c \<in> set (string_of_nat k) \<Longrightarrow> is_digit c"
  unfolding is_digit_def by (rule subsetD[OF string_of_nat_digits])

lemma dollar_no_digit: "\<not> is_digit (CHR ''$'')"
  by (simp add: is_digit_def)

lemma render_head_no_digit:
  "plain (Tok n # ps) \<Longrightarrow> takeWhile is_digit (render k ps) = []"
  by (cases ps rule: token_names.cases) (simp_all add: placeholder_def dollar_no_digit)

lemma plain_Tok: "plain (Tok n # ps) \<Longrightarrow> plain ps"
  by (cases ps rule: token_names.cases) auto

lemma placeholders_Tok:
  assumes "plain (Tok n # ps)"
  shows "placeholders (render k (Tok n # ps)) = k # placeholders (render (Suc k) ps)"
proof -
  let ?R = "render (Suc k) ps"
  have nd: "takeWhile is_digit ?R = []"
    by (rule render_head_no_digit[OF assms])
  have "takeWhile is_digit (string_of_nat k @ ?R) = string_of_nat k @ takeWhile is_digit ?R"
    by (rule takeWhile_append2) (rule string_of_nat_is_digit)
  then have tw: "takeWhile is_digit (string_of_nat k @ ?R) = string_of_nat k"
    by (simp only: nd append_Nil2)
  have "dropWhile is_digit (string_of_nat k @ ?R) = dropWhile is_digit ?R"
    by (rule dropWhile_append2) (rule string_of_nat_is_digit)
  also have "dropWhile is_digit ?R = ?R"
    using takeWhile_dropWhile_id[of is_digit ?R] by (simp only: nd append_Nil)
  finally have dw: "dropWhile is_digit (string_of_nat k @ ?R) = ?R" .
  have "placeholders (CHR ''$'' # (string_of_nat k @ ?R)) =
          nat_of_digits (string_of_nat k) # placeholders ?R"
    by (subst placeholders.simps) (simp only: tw dw string_of_nat_ne, simp)
  then show ?thesis
    by (simp only: render.simps placeholder_def append_Cons nat_of_digits_string_of_nat)
qed

lemma placeholders_render:
  "plain ps \<Longrightarrow> placeholders (render k ps) = [k..<k + length (token_names ps)]"
proof (induction ps arbitrary: k rule: token_names.induct)
  case 1
  then show ?case by simp
next
  case (2 c ps)
  then show ?case by simp
next
  case (3 n ps)
  have "placeholders (render k (Tok n # ps)) = k # placeholders (render (Suc k) ps)"
    by (rule placeholders_Tok[OF "3.prems"])
  also have "placeholders (render (Suc k) ps) = [Suc k..<Suc k + length (token_names ps)]"
    by (rule "3.IH"[OF plain_Tok[OF "3.prems"]])
  also have "k # [Suc k..<Suc k + length (token_names ps)] =
               [k..<k + length (token_names (Tok n # ps))]"
    by (simp del: upt_Suc add: upt_conv_Cons)
  finally show ?case .
qed

subsection \<open>No method of the facade keeps an ended pool\<close>

lemma wf_facade_this_pool_query:
  "wf_facade this \<Longrightarrow> this_pool_query drv this sql vs = (r, this') \<Longrightarrow> wf_facade this'"
  by (auto simp: wf_facade_def this_pool_query_def Pool_query_def split: option.splits)

lemma wf_facade_insert:
  "wf_facade this \<Longrightarrow>
     SlimNodePostgres_insert drv tableName columns vals this = (res, this') \<Longrightarrow> wf_facade this'"
  by (auto simp: SlimNodePostgres_insert_def Let_def split: prod.splits sum.splits if_splits
      dest: wf_facade_this_pool_query)

lemma wf_facade_execute:
  "wf_facade this \<Longrightarrow> SlimNodePostgres_execute drv sql ps this = Some (res, this') \<Longrightarrow>
     wf_facade this'"
  by (auto simp: SlimNodePostgres_execute_def split: option.splits prod.splits sum.splits
      dest: wf_facade_this_pool_query)

lemma wf_facade_query:
  "wf_facade this \<Longrightarrow> SlimNodePostgres_query drv sql ps this = Some (res, this') \<Longrightarrow>
     wf_facade this'"
  by (auto simp: SlimNodePostgres_query_def split: option.splits prod.splits sum.splits
      dest: wf_facade_this_pool_query)

subsection \<open>What the loop does by its design\<close>

text \<open>
  When the \<open>in\<close> operator sees no property for the identifier of some token occurrence
  (\<open>P = None\<close> is the absent mapping, for which it sees none), \<open>prepare\<close> fails with the
  missing-parameter error, whose message names the first such token with its \<open>@\<close>: a
  plain \<^verbatim>\<open>Error\<close> in the facade, a \<^verbatim>\<open>PreparedStatementError\<close> in the statement class.
  The failure carries no rewritten text, and \<open>execute\<close> and \<open>query\<close> fail with it before
  the pool is touched: the facade, with the list of the queries issued to its pool, is
  returned as it was.
\<close>

lemma missing_parameter_fails:
  assumes "m \<in> set (token_names (pieces template))" and "lookup P m = None"
  shows "\<exists>n. first_missing P (token_names (pieces template)) = Some n \<and>
           n \<in> set (token_names (pieces template)) \<and> lookup P n = None \<and>
           SlimNodePostgres_prepare template P =
             Some (Inl (Error (missing_message (CHR ''@'' # n)))) \<and>
           SlimNodePostgres_execute drv template P this =
             Some (Inl (Error (missing_message (CHR ''@'' # n))), this) \<and>
           SlimNodePostgres_query drv template P this =
             Some (Inl (Error (missing_message (CHR ''@'' # n))), this) \<and>
           (\<forall>ps. P = Some ps \<longrightarrow>
              PostgresPreparedStatement_prepare (PostgresPreparedStatement_new template ps) =
                Some (Inl (PreparedStatementError (missing_message (CHR ''@'' # n)))))"
proof -
  from first_missing_Some_ex[OF assms] obtain n
    where n: "first_missing P (token_names (pieces template)) = Some n" by blast
  have mem: "n \<in> set (token_names (pieces template)) \<and> lookup P n = None"
    by (rule first_missing_SomeD[OF n])
  have rw: "rewrite mk P 1 (pieces template) = Inl (mk (missing_message (CHR ''@'' # n)))" for mk
    by (rule rewrite_missing[OF n])
  have prep: "SlimNodePostgres_prepare template P =
                Some (Inl (Error (missing_message (CHR ''@'' # n))))"
    by (subst SlimNodePostgres_prepare_rewrite, subst rw) simp
  have ex: "SlimNodePostgres_execute drv template P this =
              Some (Inl (Error (missing_message (CHR ''@'' # n))), this)"
    by (simp add: SlimNodePostgres_execute_def prep)
  have qu: "SlimNodePostgres_query drv template P this =
              Some (Inl (Error (missing_message (CHR ''@'' # n))), this)"
    by (simp add: SlimNodePostgres_query_def prep)
  have st: "PostgresPreparedStatement_prepare (PostgresPreparedStatement_new template ps) =
              Some (Inl (PreparedStatementError (missing_message (CHR ''@'' # n))))"
    if P: "P = Some ps" for ps
  proof -
    have m: "replaceValuesWith (PostgresPreparedStatement_new template ps) = ''$''"
      by (simp add: PostgresPreparedStatement_new_def)
    have p: "parameters (PostgresPreparedStatement_new template ps) = ps"
            "sqlString (PostgresPreparedStatement_new template ps) = template"
      by (simp_all add: PostgresPreparedStatement_new_def)
    show ?thesis
      by (subst PostgresPreparedStatement_prepare_rewrite[OF m], subst p, subst p,
          subst rw[where mk = PreparedStatementError, unfolded P]) simp
  qed
  show ?thesis using n mem prep ex qu st by blast
qed

text \<open>The message, spelled out, for an object literal that lacks the second name.\<close>

lemma missing_parameter_fails_example:
  "SlimNodePostgres_prepare ''select @id, @nam''
       (Some (object_literal [''id'' \<mapsto> Num 7, ''name'' \<mapsto> Str ''x''])) =
     Some (Inl (Error (''Missing prepared statement value for SQL variable ''
                        @ CHR 0x27 # ''@nam'' @ [CHR 0x27]))) \<and>
   PostgresPreparedStatement_prepare
       (PostgresPreparedStatement_new ''select @id, @nam''
          (object_literal [''id'' \<mapsto> Num 7, ''name'' \<mapsto> Str ''x''])) =
     Some (Inl (PreparedStatementError (''Missing prepared statement value for SQL variable ''
                        @ CHR 0x27 # ''@nam'' @ [CHR 0x27])))"
  by (simp add: SlimNodePostgres_prepare_def PostgresPreparedStatement_prepare_def
      PostgresPreparedStatement_new_def prepare_loop.simps match_token_def is_ident_def
      replace_first_def string_of_nat.simps object_literal_def Object_prototype_def
      missing_message_def)

text \<open>
  When a token name \<open>n\<close> occurs twice (with any pieces before, between and after the two
  occurrences) and every token has a parameter, \<open>prepare\<close> writes two numerals that differ
  in place of the two occurrences, the second counting every token occurrence up to it, and
  the value of \<open>n\<close> stands at both positions of the value sequence, whose length is the
  number of occurrences. This is about the text written; how the target dialect reads the
  numerals next to the characters after them is another matter.
\<close>

lemma repeated_token_written_twice:
  assumes "pieces template = ps1 @ Tok n # ps2 @ Tok n # ps3"
      and "\<And>m. m \<in> set (token_names (pieces template)) \<Longrightarrow> ps m = Some (f m)"
  shows "\<exists>sql vals.
           SlimNodePostgres_prepare template (Some ps) =
             Some (Inr \<lparr>preparedSQL = sql, preparedValues = Some vals\<rparr>) \<and>
           sql = render 1 ps1 @ placeholder (Suc (length (token_names ps1)))
                   @ render (Suc (Suc (length (token_names ps1)))) ps2
                   @ placeholder (Suc (Suc (length (token_names ps1) + length (token_names ps2))))
                   @ render (Suc (Suc (Suc (length (token_names ps1) + length (token_names ps2))))) ps3 \<and>
           placeholder (Suc (length (token_names ps1))) \<noteq>
             placeholder (Suc (Suc (length (token_names ps1) + length (token_names ps2)))) \<and>
           length vals = length (token_names (pieces template)) \<and>
           vals ! length (token_names ps1) = f n \<and>
           vals ! Suc (length (token_names ps1) + length (token_names ps2)) = f n"
proof -
  let ?i = "length (token_names ps1)" and ?j = "length (token_names ps2)"
  let ?names = "token_names (pieces template)"
  have C: "SlimNodePostgres_prepare template (Some ps) =
           Some (Inr \<lparr>preparedSQL = render 1 (pieces template),
                      preparedValues = Some (map f ?names)\<rparr>)"
    by (subst SlimNodePostgres_prepare_rewrite, subst rewrite_ok[where f = f])
       (simp_all add: assms(2))
  have names: "?names = token_names ps1 @ n # token_names ps2 @ n # token_names ps3"
    by (simp add: assms(1) token_names_append)
  have r: "render 1 (pieces template) =
      render 1 ps1 @ placeholder (Suc ?i) @ render (Suc (Suc ?i)) ps2
        @ placeholder (Suc (Suc (?i + ?j))) @ render (Suc (Suc (Suc (?i + ?j)))) ps3"
    by (simp add: assms(1) render_append)
  have d: "placeholder (Suc ?i) \<noteq> placeholder (Suc (Suc (?i + ?j)))"
    using placeholder_inj[of "Suc ?i" "Suc (Suc (?i + ?j))"] by auto
  have v1: "map f ?names ! ?i = f n"
    by (simp add: names nth_append)
  have "?names ! Suc (?i + ?j) = n"
    unfolding names by (simp add: nth_append)
  moreover have "Suc (?i + ?j) < length ?names"
    unfolding names by simp
  ultimately have v2: "map f ?names ! Suc (?i + ?j) = f n"
    by simp
  show ?thesis using C r d v1 v2 by simp
qed

lemma repeated_token_written_twice_example:
  "pieces ''a = @id or b = @id'' =
     map Lit ''a = '' @ Tok ''id'' # map Lit '' or b = '' @ Tok ''id'' # [] \<and>
   [''id'' \<mapsto> Num 5] ''id'' = Some (Num 5) \<and>
   SlimNodePostgres_prepare ''a = @id or b = @id'' (Some [''id'' \<mapsto> Num 5]) =
     Some (Inr \<lparr>preparedSQL = ''a = $1 or b = $2'', preparedValues = Some [Num 5, Num 5]\<rparr>)"
proof -
  let ?T = "''a = @id or b = @id''"
  have t: "pieces ?T = map Lit ''a = '' @ Tok ''id'' # map Lit '' or b = '' @ Tok ''id'' # []"
    by (simp add: is_ident_def)
  have n: "token_names (pieces ?T) = [''id'', ''id'']"
    unfolding t by simp
  have h: "m \<in> set (token_names (pieces ?T)) \<Longrightarrow> [''id'' \<mapsto> Num 5] m = Some (Num 5)" for m
    unfolding n by auto
  from repeated_token_written_twice[of ?T "map Lit ''a = ''" "''id''" "map Lit '' or b = ''" "[]"
      "[''id'' \<mapsto> Num 5]" "\<lambda>m. Num 5", OF t h]
  obtain sql vals where
    p: "SlimNodePostgres_prepare ?T (Some [''id'' \<mapsto> Num 5]) =
          Some (Inr \<lparr>preparedSQL = sql, preparedValues = Some vals\<rparr>)"
    and s: "sql = ''a = $1 or b = $2''"
    and l: "length vals = 2" and v: "vals ! 0 = Num 5" "vals ! 1 = Num 5"
    unfolding n by (auto simp: token_names_Lit placeholder_def string_of_nat.simps)
  from l v have "vals = [Num 5, Num 5]"
    by (cases vals; cases "tl vals") auto
  with p s t show ?thesis by simp
qed

section \<open>The claims\<close>

subsection \<open>The parameter preparer\<close>

text \<open>
  C1, as amended. For every template in which every token occurrence has an entry in the
  named parameters, \<open>prepare\<close> returns the template in which the first token occurrence
  is replaced by the text \<open>$1\<close>, the second by \<open>$2\<close> and so on in the order of appearance
  (\<open>render 1\<close> of the template's pieces), and the sequence of the parameter values of the
  occurrences' identifiers, in the same order, so that its length is the number of
  occurrences and its \<open>i\<close>-th element is the value for the \<open>i\<close>-th occurrence. Both copies
  of \<open>prepare\<close> do so; the statement class returns \<^verbatim>\<open>null\<close> in place of an empty
  sequence. When moreover the template has no \<open>$\<close> of its own and no decimal digit right
  after a token occurrence (\<open>plain\<close>), the positional placeholders that the target dialect
  reads in the returned SQL are exactly \<open>$1\<close> to \<open>$n\<close> in this order, one per token
  occurrence. Nothing is said here of the placeholders read when a digit follows a token.
\<close>

theorem C1_prepare_positional:
  assumes "\<And>n. n \<in> set (token_names (pieces template)) \<Longrightarrow> ps n = Some (f n)"
  shows "SlimNodePostgres_prepare template (Some ps) =
           Some (Inr \<lparr>preparedSQL = render 1 (pieces template),
                      preparedValues = Some (map f (token_names (pieces template)))\<rparr>) \<and>
         PostgresPreparedStatement_prepare (PostgresPreparedStatement_new template ps) =
           Some (Inr \<lparr>preparedSQL = render 1 (pieces template),
                      preparedValues =
                        (if token_names (pieces template) = [] then None
                         else Some (map f (token_names (pieces template))))\<rparr>) \<and>
         length (map f (token_names (pieces template))) = length (token_names (pieces template)) \<and>
         (plain (pieces template) \<longrightarrow>
            placeholders (render 1 (pieces template)) =
              [1..<Suc (length (token_names (pieces template)))])"
proof -
  have ok: "rewrite mk (Some ps) 1 (pieces template) =
              Inr (render 1 (pieces template), map f (token_names (pieces template)))" for mk
    by (rule rewrite_ok) (simp add: assms)
  have m: "replaceValuesWith (PostgresPreparedStatement_new template ps) = ''$''"
    by (simp add: PostgresPreparedStatement_new_def)
  have p: "parameters (PostgresPreparedStatement_new template ps) = ps"
          "sqlString (PostgresPreparedStatement_new template ps) = template"
    by (simp_all add: PostgresPreparedStatement_new_def)
  have "SlimNodePostgres_prepare template (Some ps) =
           Some (Inr \<lparr>preparedSQL = render 1 (pieces template),
                      preparedValues = Some (map f (token_names (pieces template)))\<rparr>)"
    by (subst SlimNodePostgres_prepare_rewrite, subst ok) simp
  moreover have "PostgresPreparedStatement_prepare (PostgresPreparedStatement_new template ps) =
           Some (Inr \<lparr>preparedSQL = render 1 (pieces template),
                      preparedValues =
                        (if token_names (pieces template) = [] then None
                         else Some (map f (token_names (pieces template))))\<rparr>)"
    by (subst PostgresPreparedStatement_prepare_rewrite[OF m], subst p, subst p, subst ok) simp
  moreover have "plain (pieces template) \<longrightarrow>
      placeholders (render 1 (pieces template)) =
        [1..<Suc (length (token_names (pieces template)))]"
    using placeholders_render[of "pieces template" 1] by simp
  ultimately show ?thesis by simp
qed

theorem C1_prepare_positional_witness:
  "token_names (pieces ''id = @id and name = @name'') = [''id'', ''name''] \<and>
   [''id'' \<mapsto> Num 1, ''name'' \<mapsto> Str ''test2''] ''id'' = Some (Num 1) \<and>
   [''id'' \<mapsto> Num 1, ''name'' \<mapsto> Str ''test2''] ''name'' = Some (Str ''test2'') \<and>
   plain (pieces ''id = @id and name = @name'') \<and>
   SlimNodePostgres_prepare ''id = @id and name = @name''
       (Some [''id'' \<mapsto> Num 1, ''name'' \<mapsto> Str ''test2'']) =
     Some (Inr \<lparr>preparedSQL = ''id = $1 and name = $2'',
                preparedValues = Some [Num 1, Str ''test2'']\<rparr>) \<and>
   placeholders ''id = $1 and name = $2'' = [1, 2]"
proof -
  have t: "pieces ''id = @id and name = @name'' =
      map Lit ''id = '' @ Tok ''id'' # map Lit '' and name = '' @ [Tok ''name'']"
    by (simp add: is_ident_def)
  have n: "token_names (pieces ''id = @id and name = @name'') = [''id'', ''name'']"
    unfolding t by simp
  have r: "render 1 (pieces ''id = @id and name = @name'') = ''id = $1 and name = $2''"
    unfolding t by (simp add: placeholder_def string_of_nat.simps)
  have pl: "plain (pieces ''id = @id and name = @name'')"
    unfolding t by (simp add: is_digit_def)
  have h: "m \<in> set (token_names (pieces ''id = @id and name = @name'')) \<Longrightarrow>
      [''id'' \<mapsto> Num 1, ''name'' \<mapsto> Str ''test2''] m =
        Some (if m = ''id'' then Num 1 else Str ''test2'')" for m
    unfolding n by auto
  show ?thesis
    using C1_prepare_positional[of "''id = @id and name = @name''"
        "[''id'' \<mapsto> Num 1, ''name'' \<mapsto> Str ''test2'']"
        "\<lambda>n. if n = ''id'' then Num 1 else Str ''test2''", OF h] pl
    by (simp only: n r) (simp add: upt_rec)
qed

text \<open>
  C1 as stated fails on a template with a \<open>$\<close> of its own, which the code passes through
  unread: \<^verbatim>\<open>select $1, @a\<close> has one token occurrence, with a parameter, and the returned
  SQL \<^verbatim>\<open>select $1, $1\<close> contains two positional placeholders.
\<close>

theorem C1_own_dollar_two_placeholders:
  "token_names (pieces ''select $1, @a'') = [''a''] \<and>
   [''a'' \<mapsto> Num 7] ''a'' = Some (Num 7) \<and>
   SlimNodePostgres_prepare ''select $1, @a'' (Some [''a'' \<mapsto> Num 7]) =
     Some (Inr \<lparr>preparedSQL = ''select $1, $1'', preparedValues = Some [Num 7]\<rparr>) \<and>
   PostgresPreparedStatement_prepare (PostgresPreparedStatement_new ''select $1, @a'' [''a'' \<mapsto> Num 7]) =
     Some (Inr \<lparr>preparedSQL = ''select $1, $1'', preparedValues = Some [Num 7]\<rparr>) \<and>
   placeholders ''select $1, $1'' = [1, 1] \<and>
   length (placeholders ''select $1, $1'') \<noteq> length (token_names (pieces ''select $1, @a''))"
  by (simp add: SlimNodePostgres_prepare_def PostgresPreparedStatement_prepare_def
      PostgresPreparedStatement_new_def prepare_loop.simps match_token_def is_ident_def
      replace_first_def string_of_nat.simps is_digit_def nat_of_digits_def)

text \<open>
  C2 asks that \<open>prepare\<close> fail whenever the identifier of a token is not a key of the
  supplied parameters. The code tests \<^verbatim>\<open>baseVariableName in parameters\<close>, which also sees
  what the object inherits: for the template \<^verbatim>\<open>select @constructor\<close> and the parameters
  \<^verbatim>\<open>{}\<close>, which have no key at all, both copies of \<open>prepare\<close> succeed with
  \<^verbatim>\<open>select $1\<close> and the built-in function \<^verbatim>\<open>Object\<close> as the value, and \<open>execute\<close> issues
  that query to the pool.
\<close>

theorem C2_inherited_property_passes:
  "(Map.empty :: string \<rightharpoonup> jsval) ''constructor'' = None \<and>
   token_names (pieces ''select @constructor'') = [''constructor''] \<and>
   SlimNodePostgres_prepare ''select @constructor'' (Some (object_literal Map.empty)) =
     Some (Inr \<lparr>preparedSQL = ''select $1'', preparedValues = Some [Builtin ''Object'']\<rparr>) \<and>
   PostgresPreparedStatement_prepare
       (PostgresPreparedStatement_new ''select @constructor'' (object_literal Map.empty)) =
     Some (Inr \<lparr>preparedSQL = ''select $1'', preparedValues = Some [Builtin ''Object'']\<rparr>) \<and>
   map_option (\<lambda>(r, this). (r, map_option issued (pool this)))
       (SlimNodePostgres_execute drv_one_row ''select @constructor'' (Some (object_literal Map.empty))
          (SlimNodePostgres_new (ConfigString ''postgres://localhost/db'') None)) =
     Some (Inr \<lparr>affectedRows = 1, changedRows = 1\<rparr>,
           Some [(''select $1'', Some [Builtin ''Object''])])"
  by (simp add: SlimNodePostgres_prepare_def PostgresPreparedStatement_prepare_def
      PostgresPreparedStatement_new_def prepare_loop.simps match_token_def is_ident_def
      replace_first_def string_of_nat.simps object_literal_def Object_prototype_def
      SlimNodePostgres_execute_def this_pool_query_def Pool_query_def SlimNodePostgres_new_def
      Pool_new_def drv_one_row_def)

text \<open>
  C3 asks that every placeholder of the rewritten SQL denote a position between 1 and the
  length of the value sequence, also when a digit follows a token. The code does not keep
  to it: in the template \<^verbatim>\<open>@a1\<close> the only token is \<open>@a\<close>; it is replaced by \<open>$1\<close>,
  which the digit left behind turns into \<open>$11\<close>, position 11 of a value sequence of
  length 1. (By \<open>placeholders_render\<close> above the placeholders are \<open>$1\<close> to \<open>$n\<close> when no
  digit follows a token and the template has no \<open>$\<close> of its own.)
\<close>

theorem C3_digit_after_token:
  "SlimNodePostgres_prepare ''@a1'' (Some [''a'' \<mapsto> Num 7]) =
     Some (Inr \<lparr>preparedSQL = ''$11'', preparedValues = Some [Num 7]\<rparr>) \<and>
   PostgresPreparedStatement_prepare (PostgresPreparedStatement_new ''@a1'' [''a'' \<mapsto> Num 7]) =
     Some (Inr \<lparr>preparedSQL = ''$11'', preparedValues = Some [Num 7]\<rparr>) \<and>
   token_names (pieces ''@a1'') = [''a''] \<and>
   placeholders ''$11'' = [11] \<and> length [Num 7] = 1"
  by (simp add: SlimNodePostgres_prepare_def PostgresPreparedStatement_prepare_def
      PostgresPreparedStatement_new_def prepare_loop.simps match_token_def is_ident_def
      replace_first_def string_of_nat.simps is_digit_def nat_of_digits_def)

text \<open>
  C4 asks that two occurrences of one token name never share a placeholder. The code does
  not keep to it when a digit follows a token: in the template
  \<^verbatim>\<open>@a0 @b @b @b @b @b @b @b @b @a\<close> the first occurrence of \<open>@a\<close> is replaced by \<open>$1\<close>,
  which the digit left behind turns into \<open>$10\<close>, and the second occurrence, the tenth
  token, is replaced by \<open>$10\<close> as well: both occurrences read as position 10, and the
  first of the two values of \<open>a\<close>, at position 1, is denoted by no placeholder.
\<close>

theorem C4_digit_merges_placeholders:
  "token_names (pieces ''@a0 @b @b @b @b @b @b @b @b @a'') =
     [''a'', ''b'', ''b'', ''b'', ''b'', ''b'', ''b'', ''b'', ''b'', ''a''] \<and>
   SlimNodePostgres_prepare ''@a0 @b @b @b @b @b @b @b @b @a''
       (Some [''a'' \<mapsto> Num 5, ''b'' \<mapsto> Num 6]) =
     Some (Inr \<lparr>preparedSQL = ''$10 $2 $3 $4 $5 $6 $7 $8 $9 $10'',
                preparedValues = Some [Num 5, Num 6, Num 6, Num 6, Num 6, Num 6, Num 6, Num 6,
                                       Num 6, Num 5]\<rparr>) \<and>
   PostgresPreparedStatement_prepare
       (PostgresPreparedStatement_new ''@a0 @b @b @b @b @b @b @b @b @a''
          [''a'' \<mapsto> Num 5, ''b'' \<mapsto> Num 6]) =
     Some (Inr \<lparr>preparedSQL = ''$10 $2 $3 $4 $5 $6 $7 $8 $9 $10'',
                preparedValues = Some [Num 5, Num 6, Num 6, Num 6, Num 6, Num 6, Num 6, Num 6,
                                       Num 6, Num 5]\<rparr>) \<and>
   placeholders ''$10 $2 $3 $4 $5 $6 $7 $8 $9 $10'' = [10, 2, 3, 4, 5, 6, 7, 8, 9, 10] \<and>
   placeholders ''$10 $2 $3 $4 $5 $6 $7 $8 $9 $10'' ! 0 =
     placeholders ''$10 $2 $3 $4 $5 $6 $7 $8 $9 $10'' ! 9"
  by (simp add: SlimNodePostgres_prepare_def PostgresPreparedStatement_prepare_def
      PostgresPreparedStatement_new_def prepare_loop.simps match_token_def is_ident_def
      replace_first_def string_of_nat.simps is_digit_def nat_of_digits_def)

text \<open>
  C5, as amended. For every template without a token, whatever the parameters, \<open>prepare\<close>
  returns the template unchanged and no values: the statement class
  (\<^verbatim>\<open>PostgresPreparedStatement.prepare\<close>, with any marker) returns the \<^verbatim>\<open>null\<close> marker, the
  facade's own \<open>prepare\<close> returns the empty list itself.
\<close>

theorem C5_no_tokens:
  assumes "token_names (pieces template) = []"
  shows "SlimNodePostgres_prepare template P =
           Some (Inr \<lparr>preparedSQL = template, preparedValues = Some []\<rparr>) \<and>
         PostgresPreparedStatement_prepare (this\<lparr>sqlString := template\<rparr>) =
           Some (Inr \<lparr>preparedSQL = template, preparedValues = None\<rparr>)"
proof -
  have "regex_search template = None"
    by (rule no_tokens_search[OF assms])
  then have m: "match_token template = None"
    by (rule match_token_None)
  have l1: "prepare_loop Error ''$'' P template [] 1 = Some (Inr (template, []))"
    by (subst prepare_loop.simps) (simp add: m)
  have l2: "prepare_loop PreparedStatementError (replaceValuesWith this) (Some (parameters this))
              template [] 1 = Some (Inr (template, []))"
    by (subst prepare_loop.simps) (simp add: m)
  show ?thesis
    using l1 l2
    by (simp add: SlimNodePostgres_prepare_def PostgresPreparedStatement_prepare_def)
qed

theorem C5_no_tokens_witness:
  "token_names (pieces ''select 1'') = [] \<and>
   SlimNodePostgres_prepare ''select 1'' (Some [''id'' \<mapsto> Num 7]) =
     Some (Inr \<lparr>preparedSQL = ''select 1'', preparedValues = Some []\<rparr>) \<and>
   PostgresPreparedStatement_prepare (PostgresPreparedStatement_new ''select 1'' [''id'' \<mapsto> Num 7]) =
     Some (Inr \<lparr>preparedSQL = ''select 1'', preparedValues = None\<rparr>)"
proof -
  have n: "token_names (pieces ''select 1'') = []"
    by (simp add: is_ident_def)
  have e: "(PostgresPreparedStatement_new ''select 1'' [''id'' \<mapsto> Num 7])\<lparr>sqlString := ''select 1''\<rparr> =
           PostgresPreparedStatement_new ''select 1'' [''id'' \<mapsto> Num 7]"
    by (simp add: PostgresPreparedStatement_new_def)
  show ?thesis
    using C5_no_tokens[OF n, of "Some [''id'' \<mapsto> Num 7]"
        "PostgresPreparedStatement_new ''select 1'' [''id'' \<mapsto> Num 7]"] n
    unfolding e by simp
qed

text \<open>
  C5 as stated fails on the facade: for the template \<^verbatim>\<open>select 1\<close>, which has no token,
  \<^verbatim>\<open>SlimNodePostgres.prepare\<close> returns the empty list, not the \<^verbatim>\<open>null\<close> marker.
\<close>

theorem C5_facade_returns_empty_list:
  "token_names (pieces ''select 1'') = [] \<and>
   SlimNodePostgres_prepare ''select 1'' (None :: jsval PreparedStatementParameters option) =
     Some (Inr \<lparr>preparedSQL = ''select 1'', preparedValues = Some []\<rparr>) \<and>
   SlimNodePostgres_prepare ''select 1'' (None :: jsval PreparedStatementParameters option) \<noteq>
     Some (Inr \<lparr>preparedSQL = ''select 1'', preparedValues = None\<rparr>)"
  by (simp add: SlimNodePostgres_prepare_def prepare_loop.simps match_token_def is_ident_def)

text \<open>
  C10. The pieces of a template write the template back (\<open>unparse\<close>), and whenever
  \<open>prepare\<close> succeeds its SQL is the same sequence of pieces written with a placeholder in
  place of every token (\<open>render\<close>): \<open>unparse\<close> and \<open>render\<close> write every literal
  character alike and in the same order, and differ only in what they write for a token.
\<close>

theorem C10_rewrite_in_place:
  "unparse (pieces template) = template \<and>
   (SlimNodePostgres_prepare template P = Some (Inr r) \<longrightarrow>
      preparedSQL r = render 1 (pieces template)) \<and>
   (PostgresPreparedStatement_prepare (PostgresPreparedStatement_new template ps) = Some (Inr r) \<longrightarrow>
      preparedSQL r = render 1 (pieces template))"
proof -
  have rw: "rewrite mk Q 1 (pieces template) = Inr (q, vs) \<Longrightarrow> q = render 1 (pieces template)"
    for mk and Q :: "'a PreparedStatementParameters option" and q vs
    by (auto simp: rewrite_def split: option.splits)
  have a: "preparedSQL r = render 1 (pieces template)"
    if "SlimNodePostgres_prepare template P = Some (Inr r)"
    using that rw[of Error P]
    by (cases "rewrite Error P 1 (pieces template)")
       (auto simp: SlimNodePostgres_prepare_rewrite)
  have m: "replaceValuesWith (PostgresPreparedStatement_new template ps) = ''$''"
    by (simp add: PostgresPreparedStatement_new_def)
  have p: "parameters (PostgresPreparedStatement_new template ps) = ps"
          "sqlString (PostgresPreparedStatement_new template ps) = template"
    by (simp_all add: PostgresPreparedStatement_new_def)
  have b: "preparedSQL r = render 1 (pieces template)"
    if "PostgresPreparedStatement_prepare (PostgresPreparedStatement_new template ps) = Some (Inr r)"
    using that rw[of PreparedStatementError "Some ps"]
    unfolding PostgresPreparedStatement_prepare_rewrite[OF m] p
    by (cases "rewrite PreparedStatementError (Some ps) 1 (pieces template)") auto
  show ?thesis using a b unparse_pieces by blast
qed

theorem C10_rewrite_in_place_witness:
  "SlimNodePostgres_prepare ''id = @id and name = @name''
       (Some [''id'' \<mapsto> Num 1, ''name'' \<mapsto> Str ''test2'']) =
     Some (Inr \<lparr>preparedSQL = ''id = $1 and name = $2'',
                preparedValues = Some [Num 1, Str ''test2'']\<rparr>) \<and>
   pieces ''id = @id and name = @name'' =
      map Lit ''id = '' @ Tok ''id'' # map Lit '' and name = '' @ [Tok ''name''] \<and>
   unparse (map Lit ''id = '' @ Tok ''id'' # map Lit '' and name = '' @ [Tok ''name'']) =
     ''id = @id and name = @name'' \<and>
   render 1 (map Lit ''id = '' @ Tok ''id'' # map Lit '' and name = '' @ [Tok ''name'']) =
     ''id = $1 and name = $2''"
proof -
  let ?T = "''id = @id and name = @name''"
  let ?P = "Some [''id'' \<mapsto> Num 1, ''name'' \<mapsto> Str ''test2'']"
  let ?r = "\<lparr>preparedSQL = ''id = $1 and name = $2'', preparedValues = Some [Num 1, Str ''test2'']\<rparr>"
  have e: "SlimNodePostgres_prepare ?T ?P = Some (Inr ?r)"
    by (simp add: SlimNodePostgres_prepare_def prepare_loop.simps match_token_def is_ident_def
        replace_first_def string_of_nat.simps)
  have t: "pieces ?T = map Lit ''id = '' @ Tok ''id'' # map Lit '' and name = '' @ [Tok ''name'']"
    by (simp add: is_ident_def)
  from C10_rewrite_in_place[of ?T ?P ?r] e
  have "unparse (pieces ?T) = ?T" and "preparedSQL ?r = render 1 (pieces ?T)"
    by blast+
  then show ?thesis using e unfolding t by simp
qed

subsection \<open>Construction from a connection string\<close>

text \<open>
  C6, as amended. A \<^verbatim>\<open>SlimNodePostgresPool\<close> built from a connection string selects the
  parser by the prefix of the string (the only prefix with a parser is \<^verbatim>\<open>mysql://\<close>),
  fails with a \<^verbatim>\<open>ConnectionStringParseError\<close> when no parser matches, and otherwise builds
  its pool from the host, user, password and database that the parser returns (or fails
  with the parser's error). The facade \<^verbatim>\<open>SlimNodePostgres\<close> does not parse: it hands the
  string to the driver's pool as \<^verbatim>\<open>connectionString\<close>.
\<close>

theorem C6_pool_parses_connection_string:
  "(\<not> startsWith s ''mysql://'' \<longrightarrow>
      SlimNodePostgresPool_new parse (ConfigString s) other =
        Inl (ConnectionStringParseError ''No parser for connection string type'')) \<and>
   (startsWith s ''mysql://'' \<longrightarrow> parse PostgresConnectionStringParser s = Inr c \<longrightarrow>
      SlimNodePostgresPool_new parse (ConfigString s) other =
        Inr \<lparr>pool_of = Pool_new ((spread other)
               (''host'' \<mapsto> host c, ''user'' \<mapsto> user c, ''password'' \<mapsto> password c,
                ''database'' \<mapsto> database c))\<rparr>) \<and>
   (startsWith s ''mysql://'' \<longrightarrow> parse PostgresConnectionStringParser s = Inl e \<longrightarrow>
      SlimNodePostgresPool_new parse (ConfigString s) other = Inl e) \<and>
   pool (SlimNodePostgres_new (ConfigString s) other) =
     Some (Pool_new ((spread other)(''connectionString'' \<mapsto> Str s)))"
  by (simp add: SlimNodePostgresPool_new_def getParserStrategy_def SlimNodePostgres_new_def
      pool_options_def)

theorem C6_pool_parses_connection_string_witness:
  "\<not> startsWith ''postgres://u:p@localhost/db'' ''mysql://'' \<and>
   SlimNodePostgresPool_new parse_sample (ConfigString ''postgres://u:p@localhost/db'') None =
     Inl (ConnectionStringParseError ''No parser for connection string type'') \<and>
   startsWith ''mysql://u:p@localhost/db'' ''mysql://'' \<and>
   SlimNodePostgresPool_new parse_sample (ConfigString ''mysql://u:p@localhost/db'') None =
     Inr \<lparr>pool_of = Pool_new [''host'' \<mapsto> Str ''localhost'', ''user'' \<mapsto> Str ''u'',
            ''password'' \<mapsto> Str ''p'', ''database'' \<mapsto> Str ''db'']\<rparr>"
proof -
  have a: "\<not> startsWith ''postgres://u:p@localhost/db'' ''mysql://''"
    by (simp add: startsWith_def)
  have b: "startsWith ''mysql://u:p@localhost/db'' ''mysql://''"
    by (simp add: startsWith_def)
  have c: "parse_sample PostgresConnectionStringParser ''mysql://u:p@localhost/db'' =
      Inr \<lparr>host = Str ''localhost'', user = Str ''u'', password = Str ''p'', database = Str ''db''\<rparr>"
    by (simp add: parse_sample_def)
  show ?thesis
    using C6_pool_parses_connection_string[of "''postgres://u:p@localhost/db''" parse_sample None]
      C6_pool_parses_connection_string[of "''mysql://u:p@localhost/db''" parse_sample None
        "\<lparr>host = Str ''localhost'', user = Str ''u'', password = Str ''p'', database = Str ''db''\<rparr>"]
      a b c
    by (simp add: spread_def)
qed

text \<open>
  C6 as stated fails on the facade: no parser matches \<^verbatim>\<open>postgres://u:p@localhost/db\<close>, and
  yet the construction of a \<^verbatim>\<open>SlimNodePostgres\<close> from it succeeds, with the pool opened on
  the unparsed string.
\<close>

theorem C6_facade_passes_string_unparsed:
  "getParserStrategy ''postgres://u:p@localhost/db'' =
     Inl (ConnectionStringParseError ''No parser for connection string type'') \<and>
   hasOpenPool (SlimNodePostgres_new (ConfigString ''postgres://u:p@localhost/db'') None) \<and>
   pool (SlimNodePostgres_new (ConfigString ''postgres://u:p@localhost/db'') None) =
     Some (Pool_new [''connectionString'' \<mapsto> Str ''postgres://u:p@localhost/db''])"
  by (simp add: getParserStrategy_def startsWith_def hasOpenPool_def SlimNodePostgres_new_def
      pool_options_def spread_def)

subsection \<open>The pool state machine\<close>

text \<open>
  C7. The facade obeys the pool state machine. Construction opens a pool at once. On a facade
  whose pool was not ended behind its back (\<open>wf_facade\<close>, which construction, \<open>connect\<close> and
  \<open>close\<close> establish and keep), \<open>close\<close> succeeds and \<open>hasOpenPool\<close> is false afterwards. On
  a disconnected facade \<open>connect\<close> succeeds and \<open>hasOpenPool\<close> is true afterwards. On a
  connected facade \<open>connect\<close> fails with the pool-already-open error (the class
  \<^verbatim>\<open>PoolAlreadyExistsError\<close> of the code) and leaves the facade, and so its pool, as it was.
  On a disconnected facade \<open>close\<close> changes nothing.
\<close>

theorem C7_pool_state_machine:
  "hasOpenPool (SlimNodePostgres_new cfg other) \<and> wf_facade (SlimNodePostgres_new cfg other) \<and>
   (wf_facade this \<longrightarrow>
      fst (close this) = Inr () \<and> \<not> hasOpenPool (snd (close this)) \<and> wf_facade (snd (close this))) \<and>
   (\<not> hasOpenPool this \<longrightarrow>
      fst (connect this) = Inr () \<and> hasOpenPool (snd (connect this)) \<and> wf_facade (snd (connect this))) \<and>
   (hasOpenPool this \<longrightarrow>
      connect this = (Inl (PoolAlreadyExistsError
        ''The pool has already been initialized. Please close the current pool first or create another instance of SlimNodePostgres.''),
        this)) \<and>
   (\<not> hasOpenPool this \<longrightarrow> close this = (Inr (), this))"
  by (auto simp: hasOpenPool_def wf_facade_def SlimNodePostgres_new_def Pool_new_def close_def
      connect_def Pool_end_def split: option.splits)

text \<open>
  The run of the functional test: a new facade is open; closing it succeeds and leaves it
  closed; closing again changes nothing; connecting opens it again; connecting the open
  facade fails.
\<close>

theorem C7_pool_state_machine_witness:
  "wf_facade (SlimNodePostgres_new (ConfigString ''postgres://localhost/db'') None) \<and>
   fst (close (SlimNodePostgres_new (ConfigString ''postgres://localhost/db'') None)) = Inr () \<and>
   \<not> hasOpenPool (snd (close (SlimNodePostgres_new (ConfigString ''postgres://localhost/db'') None))) \<and>
   close (snd (close (SlimNodePostgres_new (ConfigString ''postgres://localhost/db'') None))) =
     (Inr (), snd (close (SlimNodePostgres_new (ConfigString ''postgres://localhost/db'') None))) \<and>
   hasOpenPool (snd (connect (snd (close
     (SlimNodePostgres_new (ConfigString ''postgres://localhost/db'') None))))) \<and>
   hasOpenPool (SlimNodePostgres_new (ConfigString ''postgres://localhost/db'') None) \<and>
   fst (connect (SlimNodePostgres_new (ConfigString ''postgres://localhost/db'') None)) =
     Inl (PoolAlreadyExistsError
        ''The pool has already been initialized. Please close the current pool first or create another instance of SlimNodePostgres.'')"
proof -
  let ?s0 = "SlimNodePostgres_new (ConfigString ''postgres://localhost/db'') None"
  let ?s1 = "snd (close ?s0)"
  have a: "hasOpenPool ?s0" "wf_facade ?s0"
    using C7_pool_state_machine[of "ConfigString ''postgres://localhost/db''" None ?s0] by simp_all
  have b: "fst (close ?s0) = Inr ()" "\<not> hasOpenPool ?s1"
    using C7_pool_state_machine[of "ConfigString ''postgres://localhost/db''" None ?s0] a by simp_all
  have c: "close ?s1 = (Inr (), ?s1)" "hasOpenPool (snd (connect ?s1))"
    using C7_pool_state_machine[of "ConfigString ''postgres://localhost/db''" None ?s1] b by simp_all
  have d: "fst (connect ?s0) = Inl (PoolAlreadyExistsError
        ''The pool has already been initialized. Please close the current pool first or create another instance of SlimNodePostgres.'')"
    using C7_pool_state_machine[of "ConfigString ''postgres://localhost/db''" None ?s0] a by simp
  show ?thesis using a b c d by simp
qed

subsection \<open>The insert helper\<close>

text \<open>
  C8. For a table name, a column list and a value list of the same length \<open>n\<close>, on a
  facade with an open pool, \<open>insert\<close> issues to the pool exactly the statement
  \<^verbatim>\<open>INSERT INTO <quoted table> (<quoted columns>) VALUES ($1, ..., $n) RETURNING id\<close> with
  the values, whatever the database answers; and when the database answers with a result,
  \<open>insertId\<close> is the \<open>id\<close> of the first returned row, or \<^verbatim>\<open>null\<close> when no row was
  returned.
\<close>

theorem C8_insert_statement:
  assumes "length columns = length vals" and "pool this = Some p"
  shows "map_option issued (pool (snd (SlimNodePostgres_insert drv tableName columns vals this))) =
           Some (issued p @ [(insert_statement tableName columns, Some vals)]) \<and>
         (drv p (insert_statement tableName columns) (Some vals) = Inr result \<longrightarrow>
            SlimNodePostgres_insert drv tableName columns vals this =
              (Inr \<lparr>affectedRows = rowCount result, changedRows = rowCount result,
                    insertId =
                      (case rows result of
                         [] \<Rightarrow> Null
                       | row # others \<Rightarrow> (case row ''id'' of None \<Rightarrow> Undefined | Some v \<Rightarrow> v))\<rparr>,
               this\<lparr>pool := Some (p\<lparr>issued := issued p @
                  [(insert_statement tableName columns, Some vals)]\<rparr>)\<rparr>))"
proof -
  have sql: "''INSERT INTO '' @ escapeIdentifier tableName @ '' (''
        @ join '', '' (map (\<lambda>col. escapeIdentifier col) columns)
        @ '') VALUES ('' @ join '', '' (map (\<lambda>index. ''$'' @ string_of_nat (index + 1)) [0..<length vals])
        @ '') RETURNING id'' = insert_statement tableName columns"
    unfolding insert_placeholders insert_statement_def escapeIdentifier_quoted assms(1) ..
  have q: "this_pool_query drv this (insert_statement tableName columns) (Some vals) =
      (drv p (insert_statement tableName columns) (Some vals),
       this\<lparr>pool := Some (p\<lparr>issued := issued p @ [(insert_statement tableName columns, Some vals)]\<rparr>)\<rparr>)"
    by (simp add: this_pool_query_def Pool_query_def assms(2))
  have ins: "SlimNodePostgres_insert drv tableName columns vals this =
      (case this_pool_query drv this (insert_statement tableName columns) (Some vals) of
         (Inl e, this') \<Rightarrow> (Inl e, this')
       | (Inr result, this') \<Rightarrow>
           (Inr \<lparr>affectedRows = rowCount result,
                 changedRows = rowCount result,
                 insertId =
                   (if length (rows result) > 0
                    then (case (rows result ! 0) ''id'' of Some v \<Rightarrow> v | None \<Rightarrow> Undefined)
                    else Null)\<rparr>,
            this'))"
    unfolding SlimNodePostgres_insert_def Let_def sql using assms(1) by simp
  show ?thesis
    unfolding ins q
    by (cases "drv p (insert_statement tableName columns) (Some vals)")
       (auto split: list.splits)
qed

theorem C8_insert_statement_witness:
  "length [''id'', ''na\"me''] = length [Num 1, Str ''test''] \<and>
   pool (SlimNodePostgres_new (ConfigString ''postgres://localhost/db'') None) =
     Some (Pool_new [''connectionString'' \<mapsto> Str ''postgres://localhost/db'']) \<and>
   insert_statement ''temptable'' [''id'', ''na\"me''] =
     ''INSERT INTO \"temptable\" (\"id\", \"na\"\"me\") VALUES ($1, $2) RETURNING id'' \<and>
   fst (SlimNodePostgres_insert drv_one_row ''temptable'' [''id'', ''na\"me''] [Num 1, Str ''test'']
       (SlimNodePostgres_new (ConfigString ''postgres://localhost/db'') None)) =
     Inr \<lparr>affectedRows = 1, changedRows = 1, insertId = Num 1\<rparr>"
proof -
  let ?f = "SlimNodePostgres_new (ConfigString ''postgres://localhost/db'') None"
  let ?p = "Pool_new [''connectionString'' \<mapsto> Str ''postgres://localhost/db'']"
  have l: "length [''id'', ''na\"me''] = length [Num 1, Str ''test'']" by simp
  have o: "pool ?f = Some ?p"
    by (simp add: SlimNodePostgres_new_def pool_options_def spread_def)
  have s: "insert_statement ''temptable'' [''id'', ''na\"me''] =
     ''INSERT INTO \"temptable\" (\"id\", \"na\"\"me\") VALUES ($1, $2) RETURNING id''"
    by (simp add: insert_statement_def quoted_def placeholder_def string_of_nat.simps upt_rec)
  have d: "drv_one_row ?p (insert_statement ''temptable'' [''id'', ''na\"me'']) (Some [Num 1, Str ''test''])
      = Inr \<lparr>rowCount = 1, rows = [[''id'' \<mapsto> Num 1]]\<rparr>"
    by (simp add: drv_one_row_def)
  show ?thesis
    using C8_insert_statement[OF l o, of drv_one_row "''temptable''"
        "\<lparr>rowCount = 1, rows = [[''id'' \<mapsto> Num 1]]\<rparr>"] d l o s
    by simp
qed

text \<open>
  C9. A call of \<open>insert\<close> in which the number of columns differs from the number of values
  fails with the column/value mismatch error (a plain \<^verbatim>\<open>Error\<close> with the message
  \<^verbatim>\<open>Columns length must match values length.\<close> in the code), before the pool is touched:
  the facade, its pool and the list of the queries issued to the pool are returned unchanged.
\<close>

theorem C9_insert_length_mismatch:
  assumes "length columns \<noteq> length vals"
  shows "SlimNodePostgres_insert drv tableName columns vals this =
           (Inl (Error ''Columns length must match values length.''), this)"
  using assms by (simp add: SlimNodePostgres_insert_def)

theorem C9_insert_length_mismatch_witness:
  "length [''id'', ''name''] \<noteq> length [Str ''test''] \<and>
   SlimNodePostgres_insert drv_one_row ''temptable'' [''id'', ''name''] [Str ''test'']
       (SlimNodePostgres_new (ConfigString ''postgres://localhost/db'') None) =
     (Inl (Error ''Columns length must match values length.''),
      SlimNodePostgres_new (ConfigString ''postgres://localhost/db'') None)"
  using C9_insert_length_mismatch[of "[''id'', ''name'']" "[Str ''test'']" drv_one_row "''temptable''"
      "SlimNodePostgres_new (ConfigString ''postgres://localhost/db'') None"]
  by simp

end
